theory Spec2Isabelle
  imports
    Complex_Main
    "HOL-Library.Multiset"
    "HOL-Library.Char_ord"
    "HOL-Library.List_Lexorder"
begin

section \<open>Values of the data frame\<close>

text \<open>
  A cell of a float64 column. \<open>NaN\<close> is what pandas stores for a missing number;
  \<open>Fin x\<close> is a finite float, represented by the real number it denotes; the two
  infinities are the values \<^verbatim>\<open>read_csv\<close> produces for the texts \<^verbatim>\<open>inf\<close> and
  \<^verbatim>\<open>-inf\<close>. Only comparisons of floats are modelled (they are exact); float
  arithmetic is not.
\<close>

datatype pyfloat = NaN | NegInf | Fin real | PosInf

text \<open>Python's \<^verbatim>\<open>a <= b\<close> and \<^verbatim>\<open>a < b\<close> on floats: false as soon as one side is NaN.\<close>

fun fle :: "pyfloat \<Rightarrow> pyfloat \<Rightarrow> bool" where
  "fle NaN b = False"
| "fle a NaN = False"
| "fle NegInf b = True"
| "fle a PosInf = True"
| "fle (Fin x) (Fin y) = (x \<le> y)"
| "fle (Fin x) NegInf = False"
| "fle PosInf b = False"

fun flt :: "pyfloat \<Rightarrow> pyfloat \<Rightarrow> bool" where
  "flt NaN b = False"
| "flt a NaN = False"
| "flt NegInf NegInf = False"
| "flt NegInf b = True"
| "flt PosInf b = False"
| "flt (Fin x) (Fin y) = (x < y)"
| "flt (Fin x) PosInf = True"
| "flt (Fin x) NegInf = False"

text \<open>\<^verbatim>\<open>a > b\<close> is \<^verbatim>\<open>b < a\<close>.\<close>

definition fgt :: "pyfloat \<Rightarrow> pyfloat \<Rightarrow> bool" where
  "fgt a b = flt b a"

definition isnan :: "pyfloat \<Rightarrow> bool" where
  "isnan a = (a = NaN)"

text \<open>A cell of the datetime column after \<^verbatim>\<open>pd.to_datetime\<close>: nanoseconds, or NaT.\<close>

datatype timestamp = NaT | Timestamp int

text \<open>What \<^verbatim>\<open>pd.read_csv\<close> and \<^verbatim>\<open>pd.to_datetime\<close> raise on a source they cannot parse.\<close>

datatype error = ParseError

text \<open>
  One row of \<^verbatim>\<open>AQI.csv\<close> after lines 13 and 14 of \<^verbatim>\<open>main.py\<close>. A text cell is
  \<open>None\<close> when the field is empty in the file. Strings are byte strings (UTF-8), ordered
  lexicographically by byte, which is Python's code point order.
\<close>

record reading =
  station :: "string option"
  city :: "string option"
  state :: "string option"
  latitude :: pyfloat
  longitude :: pyfloat
  pollutant_id :: "string option"
  pollutant_min :: pyfloat
  pollutant_max :: pyfloat
  pollutant_avg :: pyfloat
  last_update :: timestamp

text \<open>The row once line 29 has added the column \<^verbatim>\<open>AQI_Category\<close>.\<close>

record labelled = reading +
  AQI_Category :: string

section \<open>The classifier and the loader\<close>

text \<open>The five string literals of \<^verbatim>\<open>aqi_category\<close>, byte for byte (each starts with an emoji).\<close>

definition label_good :: string where
  "label_good = [CHR 0xF0, CHR 0x9F, CHR 0x9F, CHR 0xA2] @ '' Good''"

definition label_moderate :: string where
  "label_moderate = [CHR 0xF0, CHR 0x9F, CHR 0x9F, CHR 0xA1] @ '' Moderate''"

definition label_sensitive :: string where
  "label_sensitive = [CHR 0xF0, CHR 0x9F, CHR 0x9F, CHR 0xA0] @ '' Unhealthy (Sensitive)''"

definition label_unhealthy :: string where
  "label_unhealthy = [CHR 0xF0, CHR 0x9F, CHR 0x94, CHR 0xB4] @ '' Unhealthy''"

definition label_hazardous :: string where
  "label_hazardous = [CHR 0xE2, CHR 0x98, CHR 0xA0, CHR 0xEF, CHR 0xB8, CHR 0x8F] @ '' Hazardous''"

definition category_labels :: "string list" where
  "category_labels =
     [label_good, label_moderate, label_sensitive, label_unhealthy, label_hazardous]"

text \<open>\<^verbatim>\<open>aqi_category\<close>, lines 17 to 27: an if/elif chain over \<^verbatim>\<open>value <= c\<close>.\<close>

definition aqi_category :: "pyfloat \<Rightarrow> string" where
  "aqi_category v =
     (if fle v (Fin 50) then label_good
      else if fle v (Fin 100) then label_moderate
      else if fle v (Fin 150) then label_sensitive
      else if fle v (Fin 200) then label_unhealthy
      else label_hazardous)"

text \<open>\<^verbatim>\<open>df["AQI_Category"] = df["pollutant_avg"].apply(aqi_category)\<close>, one row at a time.\<close>

definition add_category :: "reading \<Rightarrow> labelled" where
  "add_category r = reading.extend r \<lparr>AQI_Category = aqi_category (pollutant_avg r)\<rparr>"

text \<open>
  \<^verbatim>\<open>load_data\<close>, lines 12 to 30. Its input is the outcome of lines 13 and 14 (reading the
  file and parsing the timestamps are library calls): the frame, or the error they raise,
  which \<^verbatim>\<open>load_data\<close> lets through.
\<close>

definition load_data :: "error + reading list \<Rightarrow> error + labelled list" where
  "load_data src = (case src of Inl e \<Rightarrow> Inl e | Inr df \<Rightarrow> Inr (map add_category df))"

text \<open>
  \<^verbatim>\<open>@st.cache_data\<close> around a function without arguments: the cache holds at most one
  frame. A hit returns the cached frame; a miss runs the function and stores its result;
  an exception is not stored.
\<close>

definition load_data_cached ::
  "error + reading list \<Rightarrow> labelled list option \<Rightarrow> (error + labelled list) \<times> labelled list option" where
  "load_data_cached src cache =
     (case cache of
        Some df \<Rightarrow> (Inr df, cache)
      | None \<Rightarrow>
          (case load_data src of
             Inl e \<Rightarrow> (Inl e, None)
           | Inr df \<Rightarrow> (Inr df, Some df)))"

section \<open>The pandas operations the dashboard calls\<close>

text \<open>A Series (an index with one value per label), in row order.\<close>

type_synonym ('k, 'v) series = "('k \<times> 'v) list"

text \<open>
  \<^verbatim>\<open>Series.max()\<close> with its default \<^verbatim>\<open>skipna=True\<close>: the largest value that is not NaN,
  and NaN when there is none.
\<close>

definition fmax :: "pyfloat \<Rightarrow> pyfloat \<Rightarrow> pyfloat" where
  "fmax a b = (if flt a b then b else a)"

definition series_max :: "pyfloat list \<Rightarrow> pyfloat" where
  "series_max xs =
     (case filter (\<lambda>x. \<not> isnan x) xs of [] \<Rightarrow> NaN | y # ys \<Rightarrow> foldl fmax y ys)"

text \<open>
  \<^verbatim>\<open>Series.sort_values(ascending=..)\<close> with its defaults \<^verbatim>\<open>kind='quicksort'\<close> and
  \<^verbatim>\<open>na_position='last'\<close>, as pandas' \<^verbatim>\<open>nargsort\<close> computes it: the missing values are
  set aside and appended in their original order; the others are sorted ascending by
  the sorting routine, for a descending sort between two reversals. The sorting routine
  (numpy's, which pandas documents as not stable) is the parameter \<open>argsort\<close>;
  \<open>isna\<close> tells a missing value.
\<close>

definition sort_values ::
  "(('k, 'v) series \<Rightarrow> ('k, 'v) series) \<Rightarrow> ('v \<Rightarrow> bool) \<Rightarrow> bool \<Rightarrow> ('k, 'v) series
     \<Rightarrow> ('k, 'v) series" where
  "sort_values argsort isna ascending s =
     (let non_nans = filter (\<lambda>p. \<not> isna (snd p)) s;
          nans = filter (\<lambda>p. isna (snd p)) s
      in (if ascending then argsort non_nans else rev (argsort (rev non_nans))) @ nans)"

text \<open>
  What the sorting routine is known to do on values none of which is missing: its result
  is a rearrangement of its argument, ascending by value.
\<close>

definition sorts_ascending ::
  "('v \<Rightarrow> bool) \<Rightarrow> ('v \<Rightarrow> 'v \<Rightarrow> bool) \<Rightarrow> (('k, 'v) series \<Rightarrow> ('k, 'v) series) \<Rightarrow> bool" where
  "sorts_ascending isna le argsort \<longleftrightarrow>
     (\<forall>xs. (\<forall>p\<in>set xs. \<not> isna (snd p)) \<longrightarrow>
        mset (argsort xs) = mset xs \<and> sorted_wrt (\<lambda>a b. le (snd a) (snd b)) (argsort xs))"

text \<open>A stable routine also keeps rows of equal value in the order it found them in.\<close>

definition stable_sorter ::
  "('v \<Rightarrow> bool) \<Rightarrow> (('k, 'v) series \<Rightarrow> ('k, 'v) series) \<Rightarrow> bool" where
  "stable_sorter isna argsort \<longleftrightarrow>
     (\<forall>xs v. (\<forall>p\<in>set xs. \<not> isna (snd p)) \<longrightarrow>
        filter (\<lambda>p. snd p = v) (argsort xs) = filter (\<lambda>p. snd p = v) xs)"

text \<open>\<^verbatim>\<open>Series.unique()\<close>: the distinct values in order of first appearance.\<close>

definition unique :: "'a list \<Rightarrow> 'a list" where
  "unique xs = rev (remdups (rev xs))"

text \<open>
  \<^verbatim>\<open>Series.value_counts()\<close> on a column without missing values: one row per distinct
  value with the number of its occurrences, sorted by \<^verbatim>\<open>sort_values(ascending=False)\<close>.
\<close>

definition value_counts ::
  "(('a, nat) series \<Rightarrow> ('a, nat) series) \<Rightarrow> 'a list \<Rightarrow> ('a, nat) series" where
  "value_counts argsort xs =
     sort_values argsort (\<lambda>c. False) False (map (\<lambda>x. (x, count_list xs x)) (unique xs))"

text \<open>
  \<^verbatim>\<open>df.groupby(key)[col]\<close> with the defaults \<^verbatim>\<open>sort=True\<close> and \<^verbatim>\<open>dropna=True\<close>: one group
  per distinct key that is not missing, the keys in ascending order, each with the
  values of \<open>col\<close> in its rows.
\<close>

definition groupby ::
  "('r \<Rightarrow> string option) \<Rightarrow> ('r \<Rightarrow> 'v) \<Rightarrow> 'r list \<Rightarrow> (string, 'v list) series" where
  "groupby key col df =
     map (\<lambda>k. (k, map col (filter (\<lambda>r. key r = Some k) df)))
       (sort (remdups (List.map_filter key df)))"

text \<open>
  The group mean skips missing values and is NaN for a group without any value.
  \<open>fmean\<close> is the float64 mean of a non-empty list of values (its rounding is not
  modelled, so it is a parameter).
\<close>

definition mean_skipna :: "(pyfloat list \<Rightarrow> pyfloat) \<Rightarrow> pyfloat list \<Rightarrow> pyfloat" where
  "mean_skipna fmean vs =
     (let xs = filter (\<lambda>v. \<not> isnan v) vs in if xs = [] then NaN else fmean xs)"

definition groupby_mean ::
  "(pyfloat list \<Rightarrow> pyfloat) \<Rightarrow> ('r \<Rightarrow> string option) \<Rightarrow> ('r \<Rightarrow> pyfloat) \<Rightarrow> 'r list
     \<Rightarrow> (string, pyfloat) series" where
  "groupby_mean fmean key col df =
     map (\<lambda>(k, vs). (k, mean_skipna fmean vs)) (groupby key col df)"

text \<open>\<^verbatim>\<open>head(n)\<close> is \<^verbatim>\<open>iloc[:n]\<close>: the first \<open>n\<close> rows, or all but the last \<open>-n\<close>.\<close>

definition head :: "int \<Rightarrow> 'a list \<Rightarrow> 'a list" where
  "head n xs = (if 0 \<le> n then take (nat n) xs else take (length xs - nat (- n)) xs)"

section \<open>The dashboard's computations\<close>

text \<open>Line 42: \<^verbatim>\<open>df["pollutant_avg"].max() > 200\<close>.\<close>

definition alert :: "labelled list \<Rightarrow> bool" where
  "alert df = fgt (series_max (map pollutant_avg df)) (Fin 200)"

text \<open>Line 68: \<^verbatim>\<open>df["AQI_Category"].value_counts().reset_index()\<close>.\<close>

definition category_counts ::
  "((string, nat) series \<Rightarrow> (string, nat) series) \<Rightarrow> labelled list \<Rightarrow> (string, nat) series" where
  "category_counts argsort df = value_counts argsort (map AQI_Category df)"

text \<open>
  Line 90:
  \<^verbatim>\<open>df.groupby('state')['pollutant_avg'].mean().sort_values(ascending=False).reset_index()\<close>.
\<close>

definition state_avg ::
  "((string, pyfloat) series \<Rightarrow> (string, pyfloat) series) \<Rightarrow> (pyfloat list \<Rightarrow> pyfloat)
     \<Rightarrow> labelled list \<Rightarrow> (string, pyfloat) series" where
  "state_avg argsort fmean df =
     sort_values argsort isnan False (groupby_mean fmean state pollutant_avg df)"

text \<open>
  Line 98, up to \<^verbatim>\<open>sort_values()\<close>:
  \<^verbatim>\<open>df.groupby("city")["pollutant_avg"].mean().sort_values()\<close>, the ranking of all cities.
\<close>

definition city_ranking ::
  "((string, pyfloat) series \<Rightarrow> (string, pyfloat) series) \<Rightarrow> (pyfloat list \<Rightarrow> pyfloat)
     \<Rightarrow> labelled list \<Rightarrow> (string, pyfloat) series" where
  "city_ranking argsort fmean df =
     sort_values argsort isnan True (groupby_mean fmean city pollutant_avg df)"

text \<open>
  Line 98: \<^verbatim>\<open>df.groupby("city")["pollutant_avg"].mean().sort_values().head(5).reset_index()\<close>.
\<close>

definition cleanest_cities ::
  "((string, pyfloat) series \<Rightarrow> (string, pyfloat) series) \<Rightarrow> (pyfloat list \<Rightarrow> pyfloat)
     \<Rightarrow> labelled list \<Rightarrow> (string, pyfloat) series" where
  "cleanest_cities argsort fmean df = head 5 (city_ranking argsort fmean df)"


text \<open>
  Lines 34 and 108 to 113: \<^verbatim>\<open>filtered_df\<close> starts as a copy of \<^verbatim>\<open>df\<close> and is replaced
  by \<^verbatim>\<open>df[df[filter_option.lower()].isin(selected)]\<close> only if \<^verbatim>\<open>selected\<close> is not empty.
\<close>

datatype filter_option = State | City

fun column :: "filter_option \<Rightarrow> labelled \<Rightarrow> string option" where
  "column State r = state r"
| "column City r = city r"

definition isin :: "'a \<Rightarrow> 'a list \<Rightarrow> bool" where
  "isin x selected = (x \<in> set selected)"

definition filtered_df :: "filter_option \<Rightarrow> string option list \<Rightarrow> labelled list \<Rightarrow> labelled list" where
  "filtered_df filter_option selected df =
     (if selected \<noteq> [] then filter (\<lambda>r. isin (column filter_option r) selected) df else df)"

section \<open>Concrete instances of the parameters\<close>

text \<open>
  Insertion sort by value, a stable sorting routine, and the same run on the reversed
  input, which sorts as well but leaves rows of equal value in the opposite order.
\<close>

fun insort_by :: "('v \<Rightarrow> 'v \<Rightarrow> bool) \<Rightarrow> 'k \<times> 'v \<Rightarrow> ('k, 'v) series \<Rightarrow> ('k, 'v) series" where
  "insort_by le x [] = [x]"
| "insort_by le x (y # ys) =
     (if le (snd x) (snd y) then x # y # ys else y # insort_by le x ys)"

definition insertion_sort :: "('v \<Rightarrow> 'v \<Rightarrow> bool) \<Rightarrow> ('k, 'v) series \<Rightarrow> ('k, 'v) series" where
  "insertion_sort le xs = foldr (insort_by le) xs []"

definition reversing_sort :: "('v \<Rightarrow> 'v \<Rightarrow> bool) \<Rightarrow> ('k, 'v) series \<Rightarrow> ('k, 'v) series" where
  "reversing_sort le xs = insertion_sort le (rev xs)"

text \<open>The mean in exact arithmetic (of finite values; an infinity wins, two opposite ones give NaN).\<close>

fun finite_part :: "pyfloat \<Rightarrow> real" where
  "finite_part (Fin x) = x"
| "finite_part a = 0"

definition exact_mean :: "pyfloat list \<Rightarrow> pyfloat" where
  "exact_mean xs =
     (if PosInf \<in> set xs \<and> NegInf \<in> set xs then NaN
      else if PosInf \<in> set xs then PosInf
      else if NegInf \<in> set xs then NegInf
      else Fin (sum_list (map finite_part xs) / real (length xs)))"

text \<open>A row with the given city, state and average reading, for the examples.\<close>

definition mk_row :: "string \<Rightarrow> string \<Rightarrow> pyfloat \<Rightarrow> reading" where
  "mk_row c s v =
     \<lparr>station = Some ''S'', city = Some c, state = Some s, latitude = NaN, longitude = NaN,
      pollutant_id = Some ''PM10'', pollutant_min = v, pollutant_max = v, pollutant_avg = v,
      last_update = NaT\<rparr>"

text \<open>
  The frame of the specification's example, with readings 10, 60, 120 and 210, and a
  frame in which the only reading of one state and city is missing.
\<close>

definition example_source :: "reading list" where
  "example_source =
     [mk_row ''Hassan'' ''Karnataka'' (Fin 10), mk_row ''Pune'' ''Maharashtra'' (Fin 60),
      mk_row ''Cuttack'' ''Odisha'' (Fin 120), mk_row ''Delhi'' ''Delhi'' (Fin 210)]"

definition example_frame :: "labelled list" where
  "example_frame = map add_category example_source"

definition missing_source :: "reading list" where
  "missing_source = [mk_row ''Hassan'' ''Karnataka'' NaN, mk_row ''Pune'' ''Maharashtra'' (Fin 10)]"

definition missing_frame :: "labelled list" where
  "missing_frame = map add_category missing_source"

text \<open>A frame in which two states (and two cities) have the same mean.\<close>

definition tie_source :: "reading list" where
  "tie_source = [mk_row ''Pune'' ''Maharashtra'' (Fin 5), mk_row ''Hassan'' ''Karnataka'' (Fin 5)]"

definition tie_frame :: "labelled list" where
  "tie_frame = map add_category tie_source"



section \<open>Predicates of the specification\<close>

text \<open>
  The specification's "maximum pollutant_avg over the Dataset", to be compared with
  \<open>series_max\<close>: a reading of the column that is not missing and that no other
  reading exceeds.
\<close>

definition is_maximum :: "pyfloat \<Rightarrow> pyfloat list \<Rightarrow> bool" where
  "is_maximum m xs \<longleftrightarrow> m \<in> set xs \<and> \<not> isnan m \<and> (\<forall>x\<in>set xs. \<not> isnan x \<longrightarrow> fle x m)"


definition descending_by_value :: "('k, pyfloat) series \<Rightarrow> bool" where
  "descending_by_value s \<longleftrightarrow> sorted_wrt (\<lambda>a b. fle (snd b) (snd a)) s"

text \<open>The rows with a value come first, those whose value is missing (NaN) last.\<close>

definition missing_last :: "('k, pyfloat) series \<Rightarrow> bool" where
  "missing_last s \<longleftrightarrow> s = filter (\<lambda>p. \<not> isnan (snd p)) s @ filter (\<lambda>p. isnan (snd p)) s"

text \<open>The rows are in strictly ascending order of their label (state or city name).\<close>

definition by_name :: "(string, 'v) series \<Rightarrow> bool" where
  "by_name s \<longleftrightarrow> sorted_wrt (\<lambda>a b. fst a < fst b) s"



text \<open>The specification's "categorizable records": those whose reading is not missing.\<close>

definition categorizable :: "labelled list \<Rightarrow> labelled list" where
  "categorizable df = filter (\<lambda>r. \<not> isnan (pollutant_avg r)) df"

section \<open>Theorems\<close>

lemma fle_NaN_right [simp]: "fle a NaN = False"
  by (cases a) simp_all

lemma flt_NaN_right [simp]: "flt a NaN = False"
  by (cases a) simp_all

lemma distinct_category_labels: "distinct category_labels"
  by (simp add: category_labels_def label_good_def label_moderate_def label_sensitive_def
      label_unhealthy_def label_hazardous_def)

lemma aqi_category_in_labels: "aqi_category v \<in> set category_labels"
  by (simp add: aqi_category_def category_labels_def)

subsection \<open>The order of floats, and the sorting routines of the examples\<close>

lemma fle_refl: "a \<noteq> NaN \<Longrightarrow> fle a a"
  by (cases a) simp_all

lemma fle_total: "a \<noteq> NaN \<Longrightarrow> b \<noteq> NaN \<Longrightarrow> fle a b \<or> fle b a"
  by (cases a; cases b) auto

lemma fle_trans: "fle a b \<Longrightarrow> fle b c \<Longrightarrow> fle a c"
  by (cases a; cases b; cases c) auto

lemma flt_iff_not_fle: "a \<noteq> NaN \<Longrightarrow> b \<noteq> NaN \<Longrightarrow> flt a b \<longleftrightarrow> \<not> fle b a"
  by (cases a; cases b) auto

lemma mset_insort_by: "mset (insort_by le x ys) = add_mset x (mset ys)"
  by (induction ys) simp_all

lemma mset_insertion_sort: "mset (insertion_sort le xs) = mset xs"
  by (induction xs) (simp_all add: insertion_sort_def mset_insort_by)

lemma set_insort_by: "set (insort_by le x ys) = insert x (set ys)"
  by (induction ys) auto

lemma set_insertion_sort: "set (insertion_sort le xs) = set xs"
  by (metis mset_insertion_sort set_mset_mset)

lemma sorted_insort_by:
  assumes tot: "\<And>b. b \<in> snd ` set ys \<Longrightarrow> le (snd x) b \<or> le b (snd x)"
    and trans: "\<And>a b c. le a b \<Longrightarrow> le b c \<Longrightarrow> le a c"
    and "sorted_wrt (\<lambda>a b. le (snd a) (snd b)) ys"
  shows "sorted_wrt (\<lambda>a b. le (snd a) (snd b)) (insort_by le x ys)"
  using assms(1,3)
proof (induction ys)
  case Nil
  then show ?case by simp
next
  case (Cons y ys)
  show ?case
  proof (cases "le (snd x) (snd y)")
    case True
    with Cons.prems(2) trans show ?thesis by auto
  next
    case False
    with Cons.prems(1) have "le (snd y) (snd x)" by auto
    with False Cons show ?thesis by (auto simp: set_insort_by)
  qed
qed

lemma sorted_insertion_sort:
  assumes tot: "\<And>a b. a \<in> snd ` set xs \<Longrightarrow> b \<in> snd ` set xs \<Longrightarrow> le a b \<or> le b a"
    and trans: "\<And>a b c. le a b \<Longrightarrow> le b c \<Longrightarrow> le a c"
  shows "sorted_wrt (\<lambda>a b. le (snd a) (snd b)) (insertion_sort le xs)"
  using tot
proof (induction xs)
  case Nil
  then show ?case by (simp add: insertion_sort_def)
next
  case (Cons x xs)
  have "sorted_wrt (\<lambda>a b. le (snd a) (snd b)) (insertion_sort le xs)"
    using Cons by auto
  moreover have "\<And>b. b \<in> snd ` set (insertion_sort le xs) \<Longrightarrow> le (snd x) b \<or> le b (snd x)"
    using Cons.prems by (auto simp: set_insertion_sort)
  ultimately have "sorted_wrt (\<lambda>a b. le (snd a) (snd b)) (insort_by le x (insertion_sort le xs))"
    using trans by (rule sorted_insort_by[rotated 2])
  then show ?case by (simp add: insertion_sort_def)
qed

lemma filter_insort_by:
  assumes "le (snd x) (snd x)"
  shows "filter (\<lambda>p. snd p = v) (insort_by le x ys) =
     (if snd x = v then x # filter (\<lambda>p. snd p = v) ys else filter (\<lambda>p. snd p = v) ys)"
  using assms by (induction ys) auto

lemma filter_insertion_sort:
  assumes "\<And>a. a \<in> snd ` set xs \<Longrightarrow> le a a"
  shows "filter (\<lambda>p. snd p = v) (insertion_sort le xs) = filter (\<lambda>p. snd p = v) xs"
  using assms
proof (induction xs)
  case Nil
  then show ?case by (simp add: insertion_sort_def)
next
  case (Cons x xs)
  then have "le (snd x) (snd x)" by simp
  then have "filter (\<lambda>p. snd p = v) (insort_by le x (insertion_sort le xs)) =
     (if snd x = v then x # filter (\<lambda>p. snd p = v) (insertion_sort le xs)
      else filter (\<lambda>p. snd p = v) (insertion_sort le xs))"
    by (rule filter_insort_by)
  with Cons show ?case
    by (simp add: insertion_sort_def)
qed

lemma insertion_sort_fle: "sorts_ascending isnan fle (insertion_sort fle)"
  unfolding sorts_ascending_def
proof (intro allI impI conjI)
  fix xs :: "('a \<times> pyfloat) list"
  assume nn: "\<forall>p\<in>set xs. \<not> isnan (snd p)"
  show "mset (insertion_sort fle xs) = mset xs" by (rule mset_insertion_sort)
  show "sorted_wrt (\<lambda>a b. fle (snd a) (snd b)) (insertion_sort fle xs)"
  proof (rule sorted_insertion_sort)
    fix a b assume "a \<in> snd ` set xs" "b \<in> snd ` set xs"
    with nn have "a \<noteq> NaN" "b \<noteq> NaN" by (auto simp: isnan_def)
    then show "fle a b \<or> fle b a" by (rule fle_total)
  qed (rule fle_trans)
qed

lemma insertion_sort_fle_stable: "stable_sorter isnan (insertion_sort fle)"
  unfolding stable_sorter_def
proof (intro allI impI)
  fix xs :: "('a \<times> pyfloat) list" and v
  assume nn: "\<forall>p\<in>set xs. \<not> isnan (snd p)"
  show "filter (\<lambda>p. snd p = v) (insertion_sort fle xs) = filter (\<lambda>p. snd p = v) xs"
  proof (rule filter_insertion_sort)
    fix a assume "a \<in> snd ` set xs"
    with nn have "a \<noteq> NaN" by (auto simp: isnan_def)
    then show "fle a a" by (rule fle_refl)
  qed
qed

lemma reversing_sort_fle: "sorts_ascending isnan fle (reversing_sort fle)"
  using insertion_sort_fle[unfolded sorts_ascending_def]
  unfolding sorts_ascending_def reversing_sort_def
  by (metis mset_rev set_rev)

lemma insertion_sort_nat: "sorts_ascending (\<lambda>c. False) (\<le>) (insertion_sort ((\<le>) :: nat \<Rightarrow> nat \<Rightarrow> bool))"
  unfolding sorts_ascending_def
  by (intro allI impI conjI mset_insertion_sort sorted_insertion_sort) auto

subsection \<open>The classifier and the loader\<close>

lemma add_category_simps:
  "AQI_Category (add_category r) = aqi_category (pollutant_avg r)"
  "pollutant_avg (add_category r) = pollutant_avg r"
  "state (add_category r) = state r"
  "city (add_category r) = city r"
  by (simp_all add: add_category_def reading.defs)

lemma example_frame_columns:
  "map state example_frame = [Some ''Karnataka'', Some ''Maharashtra'', Some ''Odisha'', Some ''Delhi'']"
  "map city example_frame = [Some ''Hassan'', Some ''Pune'', Some ''Cuttack'', Some ''Delhi'']"
  "map pollutant_avg example_frame = [Fin 10, Fin 60, Fin 120, Fin 210]"
  by (simp_all add: example_frame_def example_source_def mk_row_def add_category_simps)

lemma aqi_category_hazardous_iff:
  "aqi_category v = label_hazardous \<longleftrightarrow> isnan v \<or> fgt v (Fin 200)"
  using distinct_category_labels
  by (cases v) (auto simp: aqi_category_def isnan_def fgt_def category_labels_def)

text \<open>
  Claim C1. Whatever the reading \<open>v\<close>, \<open>aqi_category v\<close> is one of five pairwise
  different labels. A reading of at most 50 is Good, one above 50 and at most 100 is
  Moderate, one above 100 and at most 150 is Unhealthy (Sensitive), one above 150 and
  at most 200 is Unhealthy, one above 200 is Hazardous; the boundaries 50, 100, 150 and
  200 themselves get the less severe label.
\<close>

theorem aqi_category_thresholds:
  "aqi_category v \<in> set category_labels \<and> distinct category_labels \<and> length category_labels = 5
   \<and> (fle v (Fin 50) \<longrightarrow> aqi_category v = label_good)
   \<and> (flt (Fin 50) v \<and> fle v (Fin 100) \<longrightarrow> aqi_category v = label_moderate)
   \<and> (flt (Fin 100) v \<and> fle v (Fin 150) \<longrightarrow> aqi_category v = label_sensitive)
   \<and> (flt (Fin 150) v \<and> fle v (Fin 200) \<longrightarrow> aqi_category v = label_unhealthy)
   \<and> (flt (Fin 200) v \<longrightarrow> aqi_category v = label_hazardous)
   \<and> aqi_category (Fin 50) = label_good \<and> aqi_category (Fin 100) = label_moderate
   \<and> aqi_category (Fin 150) = label_sensitive \<and> aqi_category (Fin 200) = label_unhealthy"
proof -
  have "aqi_category v \<in> set category_labels" by (rule aqi_category_in_labels)
  moreover have "length category_labels = 5" by (simp add: category_labels_def)
  moreover have "fle v (Fin 50) \<longrightarrow> aqi_category v = label_good"
    by (simp add: aqi_category_def)
  moreover have "flt (Fin 50) v \<and> fle v (Fin 100) \<longrightarrow> aqi_category v = label_moderate"
    by (cases v) (auto simp: aqi_category_def)
  moreover have "flt (Fin 100) v \<and> fle v (Fin 150) \<longrightarrow> aqi_category v = label_sensitive"
    by (cases v) (auto simp: aqi_category_def)
  moreover have "flt (Fin 150) v \<and> fle v (Fin 200) \<longrightarrow> aqi_category v = label_unhealthy"
    by (cases v) (auto simp: aqi_category_def)
  moreover have "flt (Fin 200) v \<longrightarrow> aqi_category v = label_hazardous"
    by (cases v) (auto simp: aqi_category_def)
  moreover have "aqi_category (Fin 50) = label_good" "aqi_category (Fin 100) = label_moderate"
    "aqi_category (Fin 150) = label_sensitive" "aqi_category (Fin 200) = label_unhealthy"
    by (simp_all add: aqi_category_def)
  ultimately show ?thesis using distinct_category_labels by blast
qed

theorem aqi_category_thresholds_witness:
  "flt (Fin 50) (Fin 75) \<and> fle (Fin 75) (Fin 100) \<and> aqi_category (Fin 75) = label_moderate
   \<and> fle (Fin 10) (Fin 50) \<and> aqi_category (Fin 10) = label_good
   \<and> flt (Fin 100) (Fin 120) \<and> fle (Fin 120) (Fin 150) \<and> aqi_category (Fin 120) = label_sensitive
   \<and> flt (Fin 150) (Fin 160) \<and> fle (Fin 160) (Fin 200) \<and> aqi_category (Fin 160) = label_unhealthy
   \<and> flt (Fin 200) (Fin 210) \<and> aqi_category (Fin 210) = label_hazardous"
  using aqi_category_thresholds [of "Fin 75"] aqi_category_thresholds [of "Fin 10"]
    aqi_category_thresholds [of "Fin 120"] aqi_category_thresholds [of "Fin 160"]
    aqi_category_thresholds [of "Fin 210"]
  by simp

text \<open>
  Claim C10. A missing reading (NaN) is classified all the same, as Hazardous: each
  comparison of NaN with a threshold is false, which leaves the final \<^verbatim>\<open>else\<close>. So
  \<open>load_data\<close> labels every row of the frame it is given, with one of the five labels,
  and the rows whose reading is missing carry the label Hazardous.
\<close>

theorem missing_reading_is_hazardous:
  "aqi_category NaN = label_hazardous
   \<and> (\<forall>c. \<not> fle NaN c)
   \<and> (\<exists>df. load_data (Inr rows) = Inr df \<and> length df = length rows
        \<and> map pollutant_avg df = map pollutant_avg rows
        \<and> (\<forall>r\<in>set df. AQI_Category r \<in> set category_labels
              \<and> (isnan (pollutant_avg r) \<longrightarrow> AQI_Category r = label_hazardous)))"
proof -
  have "aqi_category NaN = label_hazardous" by (simp add: aqi_category_def)
  moreover have "\<forall>c. \<not> fle NaN c" by simp
  moreover have "load_data (Inr rows) = Inr (map add_category rows)"
    by (simp add: load_data_def)
  moreover have "map pollutant_avg (map add_category rows) = map pollutant_avg rows"
    by (simp add: add_category_simps)
  moreover have "\<forall>r\<in>set (map add_category rows). AQI_Category r \<in> set category_labels
              \<and> (isnan (pollutant_avg r) \<longrightarrow> AQI_Category r = label_hazardous)"
    using \<open>aqi_category NaN = label_hazardous\<close>
    by (auto simp: add_category_simps aqi_category_in_labels isnan_def)
  ultimately show ?thesis by simp
qed

theorem missing_reading_is_hazardous_witness:
  "\<exists>df. load_data (Inr [mk_row ''Delhi'' ''Delhi'' NaN]) = Inr df \<and> length df = 1
     \<and> (\<forall>r\<in>set df. isnan (pollutant_avg r) \<and> AQI_Category r = label_hazardous)"
  using missing_reading_is_hazardous [of "[mk_row ''Delhi'' ''Delhi'' NaN]"]
  by (auto simp: mk_row_def isnan_def)

text \<open>
  Claim C9. Two calls of the cached \<open>load_data\<close> on the same source return the same
  frame (the same rows with the same labels in the same order), whatever the cache held
  before the first call; with an empty cache that frame is what \<open>load_data\<close> computes
  from the source.
\<close>

theorem load_data_idempotent:
  "fst (load_data_cached src (snd (load_data_cached src cache))) = fst (load_data_cached src cache)
   \<and> fst (load_data_cached src None) = load_data src"
  by (simp add: load_data_cached_def split: option.splits sum.splits)

theorem load_data_idempotent_witness:
  "fst (load_data_cached (Inr example_source) (snd (load_data_cached (Inr example_source) None)))
     = fst (load_data_cached (Inr example_source) None)
   \<and> fst (load_data_cached (Inr example_source) None) = Inr example_frame"
  using load_data_idempotent [of "Inr example_source" None]
  by (simp add: load_data_def example_frame_def)

subsection \<open>The filter\<close>

text \<open>
  Claim C6. With an empty selection, for the state column as for the city column,
  \<open>filtered_df\<close> is the whole frame, unchanged.
\<close>

theorem filtered_df_empty_selection: "filtered_df filter_option [] df = df"
  by (simp add: filtered_df_def)

theorem filtered_df_empty_selection_witness:
  "filtered_df State [] example_frame = example_frame \<and> filtered_df City [] example_frame = example_frame"
  using filtered_df_empty_selection [of State example_frame]
    filtered_df_empty_selection [of City example_frame]
  by simp

text \<open>
  Claim C7. With a selection that is not empty and none of whose values occurs in the
  chosen column, \<open>filtered_df\<close> is the frame without rows; nothing is raised.
\<close>

theorem filtered_df_no_match:
  assumes "selected \<noteq> []" and "set selected \<inter> column filter_option ` set df = {}"
  shows "filtered_df filter_option selected df = []"
  using assms by (auto simp: filtered_df_def isin_def filter_empty_conv)

theorem filtered_df_no_match_witness:
  "[Some ''NoSuchState''] \<noteq> [] \<and> set [Some ''NoSuchState''] \<inter> column State ` set example_frame = {}
   \<and> filtered_df State [Some ''NoSuchState''] example_frame = []"
proof -
  have h1: "[Some ''NoSuchState''] \<noteq> []" by simp
  have "set [Some ''NoSuchState''] \<inter> set (map state example_frame) = {}"
    unfolding example_frame_columns by simp
  then have h2: "set [Some ''NoSuchState''] \<inter> column State ` set example_frame = {}"
    by simp
  from filtered_df_no_match [OF h1 h2] h1 h2 show ?thesis by blast
qed

subsection \<open>The alert\<close>

lemma fle_antisym: "fle a b \<Longrightarrow> fle b a \<Longrightarrow> a = b"
  by (cases a; cases b) auto

lemma fmax_cases: "fmax a b = a \<or> fmax a b = b"
  by (simp add: fmax_def)

lemma foldl_fmax_is_maximum:
  assumes "\<forall>x\<in>set (y # ys). x \<noteq> NaN"
  shows "foldl fmax y ys \<in> set (y # ys) \<and> (\<forall>x\<in>set (y # ys). fle x (foldl fmax y ys))"
  using assms
proof (induction ys arbitrary: y)
  case Nil
  then show ?case by (simp add: fle_refl)
next
  case (Cons z zs)
  have nn: "y \<noteq> NaN" "z \<noteq> NaN" "\<forall>x\<in>set zs. x \<noteq> NaN" using Cons.prems by auto
  have m: "fmax y z \<noteq> NaN" "fle y (fmax y z)" "fle z (fmax y z)" "fmax y z = y \<or> fmax y z = z"
    using nn(1,2) by (auto simp: fmax_def fle_refl flt_iff_not_fle dest: fle_total)
  have "\<forall>x\<in>set (fmax y z # zs). x \<noteq> NaN" using m(1) nn(3) by simp
  from Cons.IH [OF this]
  have ih: "foldl fmax (fmax y z) zs \<in> set (fmax y z # zs)"
    "\<forall>x\<in>set (fmax y z # zs). fle x (foldl fmax (fmax y z) zs)" by auto
  from ih(2) have top: "fle (fmax y z) (foldl fmax (fmax y z) zs)" by simp
  have "fle y (foldl fmax (fmax y z) zs)" "fle z (foldl fmax (fmax y z) zs)"
    using m(2,3) top by (blast intro: fle_trans)+
  with ih m(4) show ?case by auto
qed

lemma series_max_NaN:
  "series_max xs = NaN \<longleftrightarrow> (\<forall>x\<in>set xs. isnan x)"
proof (cases "filter (\<lambda>x. \<not> isnan x) xs")
  case Nil
  then show ?thesis by (auto simp: series_max_def filter_empty_conv)
next
  case (Cons y ys)
  have set_eq: "set (y # ys) = {x \<in> set xs. \<not> isnan x}"
    by (metis Cons set_filter)
  then have "\<forall>x\<in>set (y # ys). x \<noteq> NaN" by (auto simp: isnan_def)
  from foldl_fmax_is_maximum [OF this] this have "foldl fmax y ys \<noteq> NaN" by blast
  moreover have "y \<in> set xs" "\<not> isnan y"
    using set_eq by auto
  ultimately show ?thesis using Cons by (auto simp: series_max_def)
qed

lemma series_max_is_maximum:
  assumes "\<not> (\<forall>x\<in>set xs. isnan x)"
  shows "is_maximum (series_max xs) xs"
proof (cases "filter (\<lambda>x. \<not> isnan x) xs")
  case Nil
  with assms show ?thesis by (auto simp: filter_empty_conv)
next
  case (Cons y ys)
  have set_eq: "set (y # ys) = {x \<in> set xs. \<not> isnan x}"
    by (metis Cons set_filter)
  then have "\<forall>x\<in>set (y # ys). x \<noteq> NaN" by (auto simp: isnan_def)
  from foldl_fmax_is_maximum [OF this]
  have "foldl fmax y ys \<in> set (y # ys)" "\<forall>x\<in>set (y # ys). fle x (foldl fmax y ys)" by auto
  then show ?thesis
    unfolding is_maximum_def series_max_def Cons list.case set_eq by auto
qed

lemma is_maximum_unique: "is_maximum m xs \<Longrightarrow> is_maximum m' xs \<Longrightarrow> m = m'"
  unfolding is_maximum_def by (blast intro: fle_antisym)

lemma is_maximum_series_max: "is_maximum m xs \<longleftrightarrow> series_max xs = m \<and> m \<noteq> NaN"
proof
  assume m: "is_maximum m xs"
  then have "\<not> (\<forall>x\<in>set xs. isnan x)" by (auto simp: is_maximum_def)
  then have "is_maximum (series_max xs) xs" by (rule series_max_is_maximum)
  from this m have "series_max xs = m" by (rule is_maximum_unique)
  with m show "series_max xs = m \<and> m \<noteq> NaN"
    by (auto simp: is_maximum_def isnan_def)
next
  assume "series_max xs = m \<and> m \<noteq> NaN"
  then show "is_maximum m xs"
    using series_max_is_maximum [of xs] series_max_NaN [of xs] by auto
qed

text \<open>
  Claim C3. The alert is raised exactly when the maximum reading of the frame (the
  greatest reading that is not missing) is strictly above 200, which is exactly when some
  reading is strictly above 200.
\<close>

theorem alert_iff_maximum_exceeds_200:
  "(alert df \<longleftrightarrow> (\<exists>m. is_maximum m (map pollutant_avg df) \<and> fgt m (Fin 200)))
   \<and> (alert df \<longleftrightarrow> (\<exists>r\<in>set df. fgt (pollutant_avg r) (Fin 200)))"
proof -
  let ?xs = "map pollutant_avg df"
  have a: "alert df \<longleftrightarrow> (\<exists>m. is_maximum m ?xs \<and> fgt m (Fin 200))"
    unfolding alert_def is_maximum_series_max by (auto simp: fgt_def)
  have b: "(\<exists>m. is_maximum m ?xs \<and> fgt m (Fin 200)) \<longleftrightarrow> (\<exists>r\<in>set df. fgt (pollutant_avg r) (Fin 200))"
  proof
    assume "\<exists>m. is_maximum m ?xs \<and> fgt m (Fin 200)"
    then show "\<exists>r\<in>set df. fgt (pollutant_avg r) (Fin 200)"
      by (auto simp: is_maximum_def)
  next
    assume "\<exists>r\<in>set df. fgt (pollutant_avg r) (Fin 200)"
    then obtain r where r: "r \<in> set df" "fgt (pollutant_avg r) (Fin 200)" by blast
    then have nn: "\<not> isnan (pollutant_avg r)" by (auto simp: fgt_def isnan_def)
    with r(1) have "\<not> (\<forall>x\<in>set ?xs. isnan x)" by auto
    then have mx: "is_maximum (series_max ?xs) ?xs" by (rule series_max_is_maximum)
    with r(1) nn have "fle (pollutant_avg r) (series_max ?xs)" by (auto simp: is_maximum_def)
    moreover have "flt (Fin 200) (pollutant_avg r)" using r(2) by (simp add: fgt_def)
    ultimately have "flt (Fin 200) (series_max ?xs)"
      by (cases "pollutant_avg r"; cases "series_max ?xs") auto
    with mx show "\<exists>m. is_maximum m ?xs \<and> fgt m (Fin 200)" by (auto simp: fgt_def)
  qed
  from a b show ?thesis by simp
qed

theorem alert_iff_maximum_exceeds_200_witness:
  "alert example_frame \<and> is_maximum (Fin 210) (map pollutant_avg example_frame) \<and> fgt (Fin 210) (Fin 200)
   \<and> \<not> alert (take 3 example_frame)"
proof -
  have "is_maximum (Fin 210) (map pollutant_avg example_frame)"
    unfolding example_frame_columns by (simp add: is_maximum_def isnan_def)
  moreover have "fgt (Fin 210) (Fin 200)" by (simp add: fgt_def)
  moreover have "\<not> (\<exists>r\<in>set (take 3 example_frame). fgt (pollutant_avg r) (Fin 200))"
    by (simp add: example_frame_def example_source_def mk_row_def add_category_simps fgt_def)
  ultimately show ?thesis
    using alert_iff_maximum_exceeds_200 [of example_frame]
      alert_iff_maximum_exceeds_200 [of "take 3 example_frame"] by blast
qed

subsection \<open>Sorting a Series\<close>

lemma sorter_on_present:
  assumes "sorts_ascending isna le argsort" and "\<forall>p\<in>set xs. \<not> isna (snd p)"
  shows "mset (argsort xs) = mset xs" and "set (argsort xs) = set xs"
    and "sorted_wrt (\<lambda>a b. le (snd a) (snd b)) (argsort xs)"
proof -
  from assms show m: "mset (argsort xs) = mset xs"
    and "sorted_wrt (\<lambda>a b. le (snd a) (snd b)) (argsort xs)"
    by (simp_all add: sorts_ascending_def)
  from m show "set (argsort xs) = set xs" by (rule mset_eq_setD)
qed

lemma sort_values_sorted_part:
  assumes "sorts_ascending isna le argsort"
  shows "\<forall>p\<in>set (if asc then argsort (filter (\<lambda>p. \<not> isna (snd p)) s)
      else rev (argsort (rev (filter (\<lambda>p. \<not> isna (snd p)) s)))). \<not> isna (snd p)"
proof -
  let ?nn = "filter (\<lambda>p. \<not> isna (snd p)) s"
  have "set (argsort ?nn) = set ?nn" "set (argsort (rev ?nn)) = set ?nn"
    using sorter_on_present(2) [OF assms, of ?nn] sorter_on_present(2) [OF assms, of "rev ?nn"]
    by simp_all
  then show ?thesis by simp
qed

lemma filter_append_split:
  assumes "\<forall>p\<in>set xs. \<not> P p" and "\<forall>p\<in>set ys. P p"
  shows "filter (\<lambda>p. \<not> P p) (xs @ ys) = xs" and "filter P (xs @ ys) = ys"
  using assms by (simp_all add: filter_id_conv filter_empty_conv)

lemma sort_values_present:
  assumes "sorts_ascending isna le argsort"
  shows "filter (\<lambda>p. \<not> isna (snd p)) (sort_values argsort isna asc s) =
     (if asc then argsort (filter (\<lambda>p. \<not> isna (snd p)) s)
      else rev (argsort (rev (filter (\<lambda>p. \<not> isna (snd p)) s))))"
  unfolding sort_values_def Let_def
  by (rule filter_append_split(1) [OF sort_values_sorted_part [OF assms]]) simp

lemma sort_values_missing:
  assumes "sorts_ascending isna le argsort"
  shows "filter (\<lambda>p. isna (snd p)) (sort_values argsort isna asc s) =
     filter (\<lambda>p. isna (snd p)) s"
  unfolding sort_values_def Let_def
  by (rule filter_append_split(2) [OF sort_values_sorted_part [OF assms]]) simp

lemma sort_values_split:
  assumes "sorts_ascending isna le argsort"
  shows "sort_values argsort isna asc s =
     filter (\<lambda>p. \<not> isna (snd p)) (sort_values argsort isna asc s) @
     filter (\<lambda>p. isna (snd p)) (sort_values argsort isna asc s)"
  unfolding sort_values_present [OF assms] sort_values_missing [OF assms]
  by (simp add: sort_values_def Let_def)

lemma mset_sort_values:
  assumes "sorts_ascending isna le argsort"
  shows "mset (sort_values argsort isna asc s) = mset s"
proof -
  let ?nn = "filter (\<lambda>p. \<not> isna (snd p)) s"
  have "mset (argsort ?nn) = mset ?nn" "mset (argsort (rev ?nn)) = mset ?nn"
    using sorter_on_present(1) [OF assms, of ?nn] sorter_on_present(1) [OF assms, of "rev ?nn"]
    by simp_all
  then have "mset (sort_values argsort isna asc s) =
      mset ?nn + mset (filter (\<lambda>p. isna (snd p)) s)"
    by (simp add: sort_values_def Let_def)
  also have "\<dots> = mset s"
    using multiset_partition [of "mset s" "\<lambda>p. \<not> isna (snd p)"] by simp
  finally show ?thesis .
qed


lemma sort_values_descending:
  assumes "sorts_ascending isna le argsort"
  shows "sorted_wrt (\<lambda>a b. le (snd b) (snd a))
     (filter (\<lambda>p. \<not> isna (snd p)) (sort_values argsort isna False s))"
  unfolding sort_values_present [OF assms]
  using sorter_on_present(3) [OF assms, of "rev (filter (\<lambda>p. \<not> isna (snd p)) s)"]
  by (simp add: sorted_wrt_rev)

lemma sort_values_stable:
  assumes "sorts_ascending isna le argsort" and "stable_sorter isna argsort"
  shows "filter (\<lambda>p. snd p = v) (sort_values argsort isna asc s) = filter (\<lambda>p. snd p = v) s"
proof -
  let ?nn = "filter (\<lambda>p. \<not> isna (snd p)) s"
  let ?r = "sort_values argsort isna asc s"
  have st: "filter (\<lambda>p. snd p = v) (argsort ?nn) = filter (\<lambda>p. snd p = v) ?nn"
    "filter (\<lambda>p. snd p = v) (argsort (rev ?nn)) = filter (\<lambda>p. snd p = v) (rev ?nn)"
    using assms(2) by (simp_all add: stable_sorter_def)
  have "filter (\<lambda>p. snd p = v) (if asc then argsort ?nn else rev (argsort (rev ?nn)))
      = filter (\<lambda>p. snd p = v) ?nn"
    using st by (simp add: rev_filter [symmetric])
  then have "filter (\<lambda>p. snd p = v) ?r =
      filter (\<lambda>p. snd p = v) ?nn @ filter (\<lambda>p. snd p = v) (filter (\<lambda>p. isna (snd p)) s)"
    by (simp add: sort_values_def Let_def)
  also have "\<dots> = filter (\<lambda>p. snd p = v) s"
  proof (cases "isna v")
    case True
    then have "filter (\<lambda>p. snd p = v) ?nn = []"
      by (auto simp: filter_empty_conv)
    moreover from True
    have "filter (\<lambda>p. snd p = v) (filter (\<lambda>p. isna (snd p)) s) = filter (\<lambda>p. snd p = v) s"
      unfolding filter_filter by (intro filter_cong refl) auto
    ultimately show ?thesis by simp
  next
    case False
    then have "filter (\<lambda>p. snd p = v) (filter (\<lambda>p. isna (snd p)) s) = []"
      by (auto simp: filter_empty_conv)
    moreover from False
    have "filter (\<lambda>p. snd p = v) ?nn = filter (\<lambda>p. snd p = v) s"
      unfolding filter_filter by (intro filter_cong refl) auto
    ultimately show ?thesis by simp
  qed
  finally show ?thesis .
qed

lemma sorted_values_keys:
  assumes "sorts_ascending isna le argsort"
  shows "mset (map fst (sort_values argsort isna asc s)) = mset (map fst s)"
  using mset_sort_values [OF assms, of asc s] by (metis mset_map)

subsection \<open>Group means\<close>

lemma groupby_mean_keys:
  "map fst (groupby_mean fmean key col df) = sort (remdups (List.map_filter key df))"
  by (simp add: groupby_mean_def groupby_def comp_def case_prod_beta)

lemma groupby_mean_by_name: "by_name (groupby_mean fmean key col df)"
proof -
  have "sorted_wrt (<) (map fst (groupby_mean fmean key col df))"
    unfolding groupby_mean_keys by (simp add: strict_sorted_iff)
  then show ?thesis by (simp add: by_name_def sorted_wrt_map)
qed

lemma groupby_mean_distinct: "distinct (map fst (groupby_mean fmean key col df))"
  unfolding groupby_mean_keys by simp

lemma groupby_mean_set_keys:
  "set (map fst (groupby_mean fmean key col df)) = {k. Some k \<in> key ` set df}"
proof -
  have "set (List.map_filter key df) = {k. Some k \<in> key ` set df}"
  proof (induction df)
    case Nil
    then show ?case by (simp add: List.map_filter_simps)
  next
    case (Cons r df)
    then show ?case by (cases "key r") (auto simp: List.map_filter_simps)
  qed
  then show ?thesis unfolding groupby_mean_keys by simp
qed

lemma groupby_mean_value:
  assumes "(k, m) \<in> set (groupby_mean fmean key col df)"
  shows "m = mean_skipna fmean (map col (filter (\<lambda>r. key r = Some k) df))"
  using assms by (auto simp: groupby_mean_def groupby_def)

lemma by_name_filter: "by_name s \<Longrightarrow> by_name (filter P s)"
  by (simp add: by_name_def sorted_wrt_filter)

lemma descending_when_all_present:
  assumes "missing_last s" and "descending_by_value (filter (\<lambda>p. \<not> isnan (snd p)) s)"
    and "\<forall>p\<in>set s. \<not> isnan (snd p)"
  shows "descending_by_value s"
  using assms(2) assms(3) by (simp add: filter_id_conv)

subsection \<open>The state ranking\<close>

text \<open>
  Claim C4, as amended. Whatever sorting routine \<open>sort_values\<close> relies on, provided
  it sorts, \<open>state_avg\<close> has one row per state of the frame, no state twice, each with
  the mean of that state's readings. The rows whose mean is defined come first, in
  descending order of mean; the states all of whose readings are missing follow, with
  mean NaN, in ascending order of name. When every state has a reading the whole list is
  descending. Rows of equal mean are in ascending order of state name if the sorting
  routine is stable.
\<close>

theorem state_avg_order:
  assumes "sorts_ascending isnan fle argsort"
  shows "distinct (map fst (state_avg argsort fmean df))
   \<and> set (map fst (state_avg argsort fmean df)) = {s. Some s \<in> state ` set df}
   \<and> (\<forall>(s, m)\<in>set (state_avg argsort fmean df).
        m = mean_skipna fmean (map pollutant_avg (filter (\<lambda>r. state r = Some s) df)))
   \<and> missing_last (state_avg argsort fmean df)
   \<and> descending_by_value (filter (\<lambda>p. \<not> isnan (snd p)) (state_avg argsort fmean df))
   \<and> ((\<forall>p\<in>set (state_avg argsort fmean df). \<not> isnan (snd p)) \<longrightarrow>
        descending_by_value (state_avg argsort fmean df))
   \<and> by_name (filter (\<lambda>p. isnan (snd p)) (state_avg argsort fmean df))
   \<and> (stable_sorter isnan argsort \<longrightarrow>
        (\<forall>v. by_name (filter (\<lambda>p. snd p = v) (state_avg argsort fmean df))))"
proof -
  let ?g = "groupby_mean fmean state pollutant_avg df"
  let ?r = "state_avg argsort fmean df"
  have r: "?r = sort_values argsort isnan False ?g" by (simp add: state_avg_def)
  have keys: "mset (map fst ?r) = mset (map fst ?g)"
    unfolding r by (rule sorted_values_keys [OF assms])
  have rows: "set ?r = set ?g"
    unfolding r using mset_sort_values [OF assms, of False ?g] by (rule mset_eq_setD)
  have c1: "distinct (map fst ?r)"
    using keys groupby_mean_distinct [of fmean state pollutant_avg df]
    by (metis mset_eq_imp_distinct_iff)
  have c2: "set (map fst ?r) = {s. Some s \<in> state ` set df}"
    using keys groupby_mean_set_keys [of fmean state pollutant_avg df]
    by (metis mset_eq_setD)
  have c3: "\<forall>(s, m)\<in>set ?r.
        m = mean_skipna fmean (map pollutant_avg (filter (\<lambda>r. state r = Some s) df))"
    unfolding rows using groupby_mean_value by fastforce
  have c4: "missing_last ?r"
    unfolding r missing_last_def by (rule sort_values_split [OF assms])
  have c5: "descending_by_value (filter (\<lambda>p. \<not> isnan (snd p)) ?r)"
    unfolding r descending_by_value_def by (rule sort_values_descending [OF assms])
  have c6: "(\<forall>p\<in>set ?r. \<not> isnan (snd p)) \<longrightarrow> descending_by_value ?r"
    using c4 c5 by (blast intro: descending_when_all_present)
  have c7: "by_name (filter (\<lambda>p. isnan (snd p)) ?r)"
    unfolding r sort_values_missing [OF assms]
    by (rule by_name_filter [OF groupby_mean_by_name])
  have c8: "stable_sorter isnan argsort \<longrightarrow> (\<forall>v. by_name (filter (\<lambda>p. snd p = v) ?r))"
  proof (intro impI allI)
    fix v assume "stable_sorter isnan argsort"
    then have "filter (\<lambda>p. snd p = v) ?r = filter (\<lambda>p. snd p = v) ?g"
      unfolding r by (rule sort_values_stable [OF assms])
    then show "by_name (filter (\<lambda>p. snd p = v) ?r)"
      using by_name_filter [OF groupby_mean_by_name] by simp
  qed
  from c1 c2 c3 c4 c5 c6 c7 c8 show ?thesis by blast
qed

theorem state_avg_order_witness:
  "state_avg (insertion_sort fle) exact_mean example_frame =
     [(''Delhi'', Fin 210), (''Odisha'', Fin 120), (''Maharashtra'', Fin 60), (''Karnataka'', Fin 10)]
   \<and> distinct (map fst (state_avg (insertion_sort fle) exact_mean example_frame))
   \<and> descending_by_value (state_avg (insertion_sort fle) exact_mean example_frame)
   \<and> state_avg (insertion_sort fle) exact_mean tie_frame =
     [(''Karnataka'', Fin 5), (''Maharashtra'', Fin 5)]
   \<and> by_name (filter (\<lambda>p. snd p = Fin 5) (state_avg (insertion_sort fle) exact_mean tie_frame))"
proof -
  have e: "state_avg (insertion_sort fle) exact_mean example_frame =
     [(''Delhi'', Fin 210), (''Odisha'', Fin 120), (''Maharashtra'', Fin 60), (''Karnataka'', Fin 10)]"
    by code_simp
  have t: "state_avg (insertion_sort fle) exact_mean tie_frame =
     [(''Karnataka'', Fin 5), (''Maharashtra'', Fin 5)]"
    by code_simp
  have p: "\<forall>p\<in>set (state_avg (insertion_sort fle) exact_mean example_frame). \<not> isnan (snd p)"
    unfolding e by (simp add: isnan_def)
  from state_avg_order [OF insertion_sort_fle, of exact_mean example_frame] p
    state_avg_order [OF insertion_sort_fle, of exact_mean tie_frame] insertion_sort_fle_stable e t
  show ?thesis by blast
qed

text \<open>
  The claim as stated fails where a state has no reading at all: its mean is NaN, it is
  placed last, and \<^verbatim>\<open>10 >= NaN\<close> is false.
\<close>

theorem state_avg_order_counterexample:
  "state_avg (insertion_sort fle) exact_mean missing_frame =
     [(''Maharashtra'', Fin 10), (''Karnataka'', NaN)]
   \<and> \<not> descending_by_value (state_avg (insertion_sort fle) exact_mean missing_frame)"
proof -
  have e: "state_avg (insertion_sort fle) exact_mean missing_frame =
     [(''Maharashtra'', Fin 10), (''Karnataka'', NaN)]"
    by code_simp
  then show ?thesis by (simp add: descending_by_value_def)
qed

text \<open>
  The order of states of equal mean is not fixed by the contract of the sorting routine:
  a routine that sorts, but is not stable, can return them in descending order of name.
\<close>

lemma state_avg_tie_order_not_fixed:
  "sorts_ascending isnan fle (reversing_sort fle :: (string, pyfloat) series \<Rightarrow> (string, pyfloat) series)
   \<and> state_avg (reversing_sort fle) exact_mean tie_frame =
     [(''Maharashtra'', Fin 5), (''Karnataka'', Fin 5)]"
proof -
  have "state_avg (reversing_sort fle) exact_mean tie_frame =
     [(''Maharashtra'', Fin 5), (''Karnataka'', Fin 5)]"
    by code_simp
  then show ?thesis using reversing_sort_fle by blast
qed

subsection \<open>The cleanest cities\<close>

lemma head_is_take: "\<exists>k. head n xs = take k xs \<and> (0 \<le> n \<longrightarrow> k = nat n)"
  by (auto simp: head_def)













subsection \<open>The category counts\<close>

lemma unique_props: "distinct (unique xs)" "set (unique xs) = set xs"
  by (simp_all add: unique_def)

lemma sum_counts_unique: "sum_list (map (count_list xs) (unique xs)) = length xs"
proof -
  have "sum_list (map (count_list xs) (unique xs)) = sum (count_list xs) (set xs)"
    using sum_list_distinct_conv_sum_set [of "unique xs" "count_list xs"]
    by (simp add: unique_props)
  also have "\<dots> = length xs" by (rule sum_count_set) simp_all
  finally show ?thesis .
qed

lemma value_counts_props:
  assumes "sorts_ascending (\<lambda>c. False) (\<le>) argsort"
  shows "sum_list (map snd (value_counts argsort xs)) = length xs"
    and "distinct (map fst (value_counts argsort xs))"
    and "set (value_counts argsort xs) = (\<lambda>x. (x, count_list xs x)) ` set xs"
proof -
  let ?base = "map (\<lambda>x. (x, count_list xs x)) (unique xs)"
  have m: "mset (value_counts argsort xs) = mset ?base"
    unfolding value_counts_def by (rule mset_sort_values [OF assms])
  then have "mset (map snd (value_counts argsort xs)) = mset (map snd ?base)"
    by (metis mset_map)
  then have "sum_list (map snd (value_counts argsort xs)) = sum_list (map snd ?base)"
    by (metis sum_mset_sum_list)
  also have "\<dots> = length xs" using sum_counts_unique [of xs] by (simp add: comp_def)
  finally show "sum_list (map snd (value_counts argsort xs)) = length xs" .
  from m have "mset (map fst (value_counts argsort xs)) = mset (map fst ?base)"
    by (metis mset_map)
  moreover have "distinct (map fst ?base)" by (simp add: comp_def unique_props)
  ultimately show "distinct (map fst (value_counts argsort xs))"
    by (metis mset_eq_imp_distinct_iff)
  from m have "set (value_counts argsort xs) = set ?base" by (rule mset_eq_setD)
  then show "set (value_counts argsort xs) = (\<lambda>x. (x, count_list xs x)) ` set xs"
    by (simp add: unique_props)
qed

lemma loaded_labels:
  assumes "load_data src = Inr df"
  shows "map AQI_Category df = map (\<lambda>r. aqi_category (pollutant_avg r)) df"
  using assms by (auto simp: load_data_def add_category_simps split: sum.splits)

lemma count_list_map_filter: "count_list (map f xs) y = length (filter (\<lambda>x. f x = y) xs)"
  by (induction xs) auto

text \<open>
  Claim C2, as amended. On a frame that \<open>load_data\<close> returned, the counts of
  \<open>category_counts\<close> add up to the number of all rows of the frame. There is one row
  per label that occurs, each label is one of the five, and its count is the number of
  rows the classifier maps to it and is positive. Rows with a missing reading are not
  left out: they are counted under Hazardous, together with the readings above 200.
\<close>

theorem category_counts_total:
  assumes "sorts_ascending (\<lambda>c. False) (\<le>) argsort" and "load_data src = Inr df"
  shows "sum_list (map snd (category_counts argsort df)) = length df
   \<and> distinct (map fst (category_counts argsort df))
   \<and> set (map fst (category_counts argsort df)) \<subseteq> set category_labels
   \<and> (\<forall>(l, c)\<in>set (category_counts argsort df).
        c = length (filter (\<lambda>r. aqi_category (pollutant_avg r) = l) df) \<and> 0 < c)
   \<and> ((\<exists>r\<in>set df. isnan (pollutant_avg r)) \<longrightarrow>
        (label_hazardous,
         length (filter (\<lambda>r. isnan (pollutant_avg r) \<or> fgt (pollutant_avg r) (Fin 200)) df))
        \<in> set (category_counts argsort df))"
proof -
  let ?ls = "map (\<lambda>r. aqi_category (pollutant_avg r)) df"
  let ?r = "category_counts argsort df"
  have r: "?r = value_counts argsort ?ls"
    by (simp add: category_counts_def loaded_labels [OF assms(2)])
  have cnt: "count_list ?ls l = length (filter (\<lambda>r. aqi_category (pollutant_avg r) = l) df)" for l
    by (rule count_list_map_filter)
  have rows: "set ?r = (\<lambda>l. (l, length (filter (\<lambda>r. aqi_category (pollutant_avg r) = l) df))) ` set ?ls"
    unfolding r value_counts_props(3) [OF assms(1)] cnt ..
  have c1: "sum_list (map snd ?r) = length df"
    unfolding r using value_counts_props(1) [OF assms(1), of ?ls] by simp
  have c2: "distinct (map fst ?r)"
    unfolding r by (rule value_counts_props(2) [OF assms(1)])
  have c3: "set (map fst ?r) \<subseteq> set category_labels"
    using rows aqi_category_in_labels by auto
  have c4: "\<forall>(l, c)\<in>set ?r.
        c = length (filter (\<lambda>r. aqi_category (pollutant_avg r) = l) df) \<and> 0 < c"
    unfolding rows by (auto simp: length_greater_0_conv filter_empty_conv)
  have c5: "(\<exists>r\<in>set df. isnan (pollutant_avg r)) \<longrightarrow>
        (label_hazardous,
         length (filter (\<lambda>r. isnan (pollutant_avg r) \<or> fgt (pollutant_avg r) (Fin 200)) df))
        \<in> set ?r"
  proof
    assume "\<exists>r\<in>set df. isnan (pollutant_avg r)"
    then obtain r where "r \<in> set df" "aqi_category (pollutant_avg r) = label_hazardous"
      using aqi_category_hazardous_iff by blast
    then have "label_hazardous \<in> set ?ls" by force
    then have "(label_hazardous,
        length (filter (\<lambda>r. aqi_category (pollutant_avg r) = label_hazardous) df)) \<in> set ?r"
      unfolding rows by (rule imageI)
    then show "(label_hazardous,
         length (filter (\<lambda>r. isnan (pollutant_avg r) \<or> fgt (pollutant_avg r) (Fin 200)) df))
        \<in> set ?r"
      by (simp add: aqi_category_hazardous_iff)
  qed
  from c1 c2 c3 c4 c5 show ?thesis by blast
qed

theorem category_counts_total_witness:
  "load_data (Inr missing_source) = Inr missing_frame
   \<and> sum_list (map snd (category_counts (insertion_sort (\<le>)) missing_frame)) = length missing_frame
   \<and> category_counts (insertion_sort (\<le>)) missing_frame = [(label_hazardous, 1), (label_good, 1)]"
proof -
  have l: "load_data (Inr missing_source) = Inr missing_frame"
    by (simp add: load_data_def missing_frame_def)
  have e: "category_counts (insertion_sort (\<le>)) missing_frame = [(label_hazardous, 1), (label_good, 1)]"
    by code_simp
  from category_counts_total [OF insertion_sort_nat l] l e show ?thesis by blast
qed

text \<open>
  The claim as stated fails on a frame with one reading of 10 and one missing reading:
  the counts add up to 2, and only one row has a reading.
\<close>

theorem category_counts_counterexample:
  "load_data (Inr missing_source) = Inr missing_frame
   \<and> sum_list (map snd (category_counts (insertion_sort (\<le>)) missing_frame)) = 2
   \<and> length (categorizable missing_frame) = 1
   \<and> sum_list (map snd (category_counts (insertion_sort (\<le>)) missing_frame))
       \<noteq> length (categorizable missing_frame)"
proof -
  have l: "load_data (Inr missing_source) = Inr missing_frame"
    by (simp add: load_data_def missing_frame_def)
  have e: "category_counts (insertion_sort (\<le>)) missing_frame = [(label_hazardous, 1), (label_good, 1)]"
    by code_simp
  have c: "length (categorizable missing_frame) = 1"
    by (simp add: categorizable_def missing_frame_def missing_source_def mk_row_def
        add_category_simps isnan_def)
  from l e c show ?thesis by simp
qed

subsection \<open>The empty frame\<close>

text \<open>
  Claim C8. On the frame without rows the loader returns the frame without rows, the
  alert is off, and the category counts, the state ranking and the list of cleanest
  cities are empty; none of them has an error as its result.
\<close>

theorem empty_frame_results:
  assumes "sorts_ascending isnan fle fsort" and "sorts_ascending (\<lambda>c. False) (\<le>) csort"
  shows "load_data (Inr []) = Inr [] \<and> \<not> alert [] \<and> category_counts csort [] = []
   \<and> state_avg fsort fmean [] = [] \<and> cleanest_cities fsort fmean [] = []"
proof -
  have f: "fsort [] = []" using sorter_on_present(1) [OF assms(1), of "[]"] by simp
  have c: "csort [] = []" using sorter_on_present(1) [OF assms(2), of "[]"] by simp
  have "load_data (Inr []) = Inr []" by (simp add: load_data_def)
  moreover have "\<not> alert []" by (simp add: alert_def series_max_def fgt_def)
  moreover have "category_counts csort [] = []"
    by (simp add: category_counts_def value_counts_def unique_def sort_values_def c)
  moreover have "groupby_mean fmean key pollutant_avg ([] :: labelled list) = []" for key
    by (simp add: groupby_mean_def groupby_def List.map_filter_simps)
  then have "state_avg fsort fmean [] = []" "cleanest_cities fsort fmean [] = []"
    by (simp_all add: state_avg_def cleanest_cities_def city_ranking_def sort_values_def
        head_def f)
  ultimately show ?thesis by simp
qed

theorem empty_frame_results_witness:
  "load_data (Inr []) = Inr [] \<and> \<not> alert [] \<and> category_counts (insertion_sort (\<le>)) [] = []
   \<and> state_avg (insertion_sort fle) exact_mean [] = []
   \<and> cleanest_cities (insertion_sort fle) exact_mean [] = []"
  using empty_frame_results [OF insertion_sort_fle insertion_sort_nat, of exact_mean]
  by simp

end
